theory Spec2Isabelle
  imports Main "HOL-Library.AList"
begin

section \<open>The proxy pool of ProxyPool.js\<close>

text \<open>
  A shallow embedding of the class \<open>ProxyPool\<close> (src/unnamed/part_000, lines 6 to 688).
  Mutation of \<open>this\<close> is explicit state passing over the record \<open>ProxyPool\<close>.
  Everything the class asks of the outside world is an oracle of the record \<open>env\<close>:
  the provider's HTTP response, the response of a probe sent through a proxy,
  \<open>JSON.parse\<close>, how long an awaited network call takes, whether standard output is
  a terminal, and what the floating-point progress estimate rounds to. An awaited call
  runs to its end before the next step of the model: a cycle is one step.
  \<open>log\<close> only writes to the console and is left out; \<open>showProgress\<close> is modelled by the
  line it remembers and by the exception it throws.
\<close>

subsection \<open>JavaScript values and strings\<close>

text \<open>What an array read or a function that returns \<open>null\<close> may give.\<close>

datatype 'a js = Null | Undefined | Obj 'a

text \<open>\<open>xs[i]\<close>: \<open>undefined\<close> out of range.\<close>

definition nth_opt :: "'a list \<Rightarrow> nat \<Rightarrow> 'a option" where
  "nth_opt xs i = (if i < length xs then Some (xs ! i) else None)"

text \<open>\<open>s.split(d)\<close> for a one-character separator: never empty, \<open>''.split(d) = ['']\<close>.\<close>

primrec splitOn :: "char \<Rightarrow> string \<Rightarrow> string list" where
  "splitOn d [] = [[]]"
| "splitOn d (c # cs) =
     (if c = d then [] # splitOn d cs
      else (case splitOn d cs of [] \<Rightarrow> [[c]] | p # ps \<Rightarrow> (c # p) # ps))"

text \<open>\<open>s.trim()\<close>, on the ASCII white space characters.\<close>

definition isSpace :: "char \<Rightarrow> bool" where
  "isSpace c = (c \<in> set [CHR '' '', CHR 0x09, CHR 0x0A, CHR 0x0B, CHR 0x0C, CHR 0x0D])"

definition trim :: "string \<Rightarrow> string" where
  "trim s = rev (dropWhile isSpace (rev (dropWhile isSpace s)))"

text \<open>\<open>s.includes(sub)\<close>.\<close>

primrec strIncludes :: "string \<Rightarrow> string \<Rightarrow> bool" where
  "strIncludes [] sub = (sub = [])"
| "strIncludes (c # cs) sub = (take (length sub) (c # cs) = sub \<or> strIncludes cs sub)"

subsection \<open>The outside world\<close>

text \<open>
  \<open>response.data\<close> of an axios call: a falsy value, a string, or any other truthy value
  (axios hands over an object when the body parses as one JSON document).
  A response is an axios rejection (network error, timeout) or a status with its data;
  both calls of the class pass \<open>validateStatus: status => true\<close>, so no status rejects.
\<close>

datatype body = NoData | Text string | NonText

datatype response = NetworkError | Response nat body

text \<open>
  What \<open>JSON.parse(line)\<close> gave, as far as \<open>getProxiesFromProvider\<close> reads it: each field is
  its text as the template string prints it, or \<open>None\<close> when the field is absent or falsy.
  The oracle \<open>jsonParse\<close> answers \<open>None\<close> for a line on which \<open>JSON.parse\<close> throws (or
  gives \<open>null\<close>, on which the field read throws).
\<close>

record proxyData =
  dataIp :: "string option"
  dataPort :: "string option"
  dataUsername :: "string option"
  dataPassword :: "string option"

text \<open>
  Network calls are numbered in the order they are issued (\<open>calls\<close> of the state).
  \<open>provider env k country number protocol\<close> is the response to the k-th call when it is
  the GET of \<open>/random/country?number=..&protocol=..&type=json\<close>; \<open>probe env k proxyUrl\<close> is
  the response when it is a GET of the target through \<open>proxyUrl\<close>; \<open>elapsed env k\<close> is
  the time in milliseconds the await that starts with call k takes.
  \<open>stdoutTTY env\<close> says that \<open>process.stdout\<close> is a terminal: only then does it have the
  methods \<open>clearLine\<close> and \<open>cursorTo\<close>, and calling \<open>process.stdout.clearLine(0)\<close>
  otherwise throws a TypeError. \<open>progressFloor env i n c t\<close> is what
  \<open>Math.floor(c + Math.min(1, i / n) * 0.2 * (t - c))\<close> gives in floating point for an
  index \<open>i > 0\<close> (for \<open>i = 0\<close> the sum is \<open>c\<close> itself).
\<close>

record env =
  provider :: "nat \<Rightarrow> string \<Rightarrow> nat \<Rightarrow> string \<Rightarrow> response"
  jsonParse :: "string \<Rightarrow> proxyData option"
  probe :: "nat \<Rightarrow> string \<Rightarrow> response"
  elapsed :: "nat \<Rightarrow> nat"
  stdoutTTY :: bool
  progressFloor :: "nat \<Rightarrow> nat \<Rightarrow> nat \<Rightarrow> nat \<Rightarrow> nat"

datatype error = AxiosError | TypeError

text \<open>What the class did to the network, in order.\<close>

datatype event =
    Fetch string nat string
  | Dispatch "string list"
  | Resolved "(string \<times> bool) list"
  | Wait nat

subsection \<open>The state of a pool\<close>

text \<open>
  An entry of \<open>availableProxies\<close>. \<open>port\<close> is \<open>proxyParts[1]\<close>, undefined for a key without
  a colon; \<open>username\<close> and \<open>password\<close> are set for a key of four parts or more.
\<close>

record proxy =
  ip :: string
  port :: "string option"
  protocol :: string
  full :: string
  addedAt :: int
  username :: "string option"
  password :: "string option"

record cacheEntry =
  valid :: bool
  timestamp :: int

text \<open>
  The fields of the class that the operations below read or write. \<open>proxyCache\<close> is a
  JavaScript \<open>Map\<close>: it iterates in insertion order and \<open>set\<close> on a present key keeps the
  key's place, which is \<open>AList.update\<close> on an association list.
  \<open>lastProgressString\<close> is the progress line last written: every call of \<open>showProgress\<close>
  passes the same message, and the bar and the percentage are computed from \<open>current\<close>
  and \<open>total\<close>, so the line is given by that pair; \<open>None\<close> is the empty string.
  The last three fields are the world as the pool sees it: \<open>clock\<close> is \<open>Date.now()\<close>,
  \<open>calls\<close> counts the network calls issued and \<open>trace\<close> records them.
\<close>

record ProxyPool =
  targetCount :: nat
  batchSize :: nat
  concurrentRequests :: nat
  minThreshold :: nat
  maxRefillAttempts :: nat
  retryDelay :: nat
  useCache :: bool
  cacheExpiry :: nat
  proxyProtocol :: string
  proxyCountry :: string
  availableProxies :: "proxy list"
  currentIndex :: nat
  isRefilling :: bool
  proxyCache :: "(string \<times> cacheEntry) list"
  showProgressBar :: bool
  progressTotal :: nat
  progressCurrent :: nat
  lastProgressString :: "(nat \<times> nat) option"
  clock :: int
  calls :: nat
  trace :: "event list"

text \<open>
  The constructor, called at time \<open>now\<close>: \<open>options.x || d\<close> takes the default for a missing
  or zero option. The options that only axios, the timer and the logger read (timeouts,
  target URL, check interval, log level) are left out, and the protocol keeps its
  default.
\<close>

record options =
  optTargetCount :: "nat option"
  optBatchSize :: "nat option"
  optConcurrentRequests :: "nat option"
  optMinThreshold :: "nat option"
  optMaxRefillAttempts :: "nat option"
  optRetryDelay :: "nat option"
  optUseCache :: "bool option"
  optCacheExpiry :: "nat option"
  optShowProgressBar :: "bool option"

definition orDefault :: "nat option \<Rightarrow> nat \<Rightarrow> nat" where
  "orDefault v d = (case v of None \<Rightarrow> d | Some n \<Rightarrow> if n = 0 then d else n)"

definition noOptions :: options where
  "noOptions = \<lparr>optTargetCount = None, optBatchSize = None, optConcurrentRequests = None,
     optMinThreshold = None, optMaxRefillAttempts = None, optRetryDelay = None,
     optUseCache = None, optCacheExpiry = None, optShowProgressBar = None\<rparr>"

definition newProxyPool :: "options \<Rightarrow> int \<Rightarrow> ProxyPool" where
  "newProxyPool opts now =
     \<lparr>targetCount = orDefault (optTargetCount opts) 20,
      batchSize = orDefault (optBatchSize opts) 20,
      concurrentRequests = orDefault (optConcurrentRequests opts) 10,
      minThreshold = orDefault (optMinThreshold opts) 5,
      maxRefillAttempts = orDefault (optMaxRefillAttempts opts) 20,
      retryDelay = orDefault (optRetryDelay opts) 1000,
      useCache = (case optUseCache opts of None \<Rightarrow> True | Some b \<Rightarrow> b),
      cacheExpiry = orDefault (optCacheExpiry opts) 3600000,
      proxyProtocol = ''http'',
      proxyCountry = ''us'',
      availableProxies = [],
      currentIndex = 0,
      isRefilling = False,
      proxyCache = [],
      showProgressBar = (case optShowProgressBar opts of None \<Rightarrow> False | Some b \<Rightarrow> b),
      progressTotal = 0,
      progressCurrent = 0,
      lastProgressString = None,
      clock = now,
      calls = 0,
      trace = []\<rparr>"

text \<open>\<open>await new Promise(resolve => setTimeout(resolve, ms))\<close>.\<close>

definition sleep :: "nat \<Rightarrow> ProxyPool \<Rightarrow> ProxyPool" where
  "sleep ms s = s\<lparr>clock := clock s + int ms, trace := trace s @ [Wait ms]\<rparr>"

subsection \<open>The progress line\<close>

text \<open>
  \<open>showProgress(message, current, total)\<close>: nothing when the bar is off or the line is
  the one last written; otherwise the last line, if there is one, is cleared with
  \<open>process.stdout.clearLine(0)\<close>, which throws when standard output is not a terminal,
  and the new line is written and remembered. The result is the exception thrown, if
  any, and the state.
\<close>

definition showProgress :: "env \<Rightarrow> nat \<Rightarrow> nat \<Rightarrow> ProxyPool \<Rightarrow> error option \<times> ProxyPool" where
  "showProgress env current totalCount s =
     (if \<not> showProgressBar s then (None, s)
      else if lastProgressString s = Some (min current totalCount, totalCount) then (None, s)
      else if lastProgressString s \<noteq> None \<and> \<not> stdoutTTY env then (Some TypeError, s)
      else (None, s\<lparr>lastProgressString := Some (min current totalCount, totalCount)\<rparr>))"

text \<open>
  The two statements that follow the cache pass (lines 228 and 229) and the insertion of
  an attempt (lines 269 and 270): \<open>progressCurrent\<close> is set to the size of the pool and the
  line is shown.
\<close>

definition showPoolProgress :: "env \<Rightarrow> ProxyPool \<Rightarrow> error option \<times> ProxyPool" where
  "showPoolProgress env s =
     showProgress env (length (availableProxies s)) (progressTotal s)
       (s\<lparr>progressCurrent := length (availableProxies s)\<rparr>)"

subsection \<open>Identity of a candidate in the pool\<close>

text \<open>
  The test \<open>this.availableProxies.some(...)\<close> that \<open>filterExistingProxies\<close> and
  \<open>addValidProxies\<close> both make on the parts of a candidate \<open>ip:port[:username:password]\<close>.
\<close>

definition inPool :: "string list \<Rightarrow> proxy list \<Rightarrow> bool" where
  "inPool proxyParts pool =
     (if 4 \<le> length proxyParts then
        list_ex (\<lambda>p. ip p = hd proxyParts \<and> port p = nth_opt proxyParts 1 \<and>
                    username p = Some (proxyParts ! 2) \<and>
                    password p = Some (proxyParts ! 3)) pool
      else list_ex (\<lambda>p. ip p = hd proxyParts \<and> port p = nth_opt proxyParts 1) pool)"

definition filterExistingProxies :: "string list \<Rightarrow> ProxyPool \<Rightarrow> string list" where
  "filterExistingProxies proxies s =
     filter (\<lambda>proxy. \<not> inPool (splitOn CHR '':'' proxy) (availableProxies s)) proxies"

text \<open>The object \<open>proxyObj\<close> that \<open>addValidProxies\<close> pushes.\<close>

definition proxyObj :: "ProxyPool \<Rightarrow> string \<Rightarrow> proxy" where
  "proxyObj s proxyStr =
     (let proxyParts = splitOn CHR '':'' proxyStr in
      if 4 \<le> length proxyParts then
        \<lparr>ip = hd proxyParts, port = nth_opt proxyParts 1, protocol = proxyProtocol s,
         full = proxyProtocol s @ ''://'' @ proxyParts ! 2 @ '':'' @ proxyParts ! 3 @ ''@''
                @ hd proxyParts @ '':'' @ proxyParts ! 1,
         addedAt = clock s,
         username = Some (proxyParts ! 2), password = Some (proxyParts ! 3)\<rparr>
      else
        \<lparr>ip = hd proxyParts, port = nth_opt proxyParts 1, protocol = proxyProtocol s,
         full = proxyProtocol s @ ''://'' @ proxyStr,
         addedAt = clock s,
         username = None, password = None\<rparr>)"

definition cacheSet :: "string \<Rightarrow> bool \<Rightarrow> ProxyPool \<Rightarrow> ProxyPool" where
  "cacheSet proxyKey v s =
     s\<lparr>proxyCache := AList.update proxyKey \<lparr>valid = v, timestamp = clock s\<rparr> (proxyCache s)\<rparr>"

text \<open>
  \<open>addValidProxies(results)\<close>: a passing candidate that is not in the pool is pushed and
  cached as valid, and the loop breaks once the pool holds \<open>targetCount\<close> entries; a
  failing one is cached as invalid; a passing one that is in the pool is passed over.
\<close>

fun addValidProxies :: "(string \<times> bool) list \<Rightarrow> ProxyPool \<Rightarrow> ProxyPool" where
  "addValidProxies [] s = s"
| "addValidProxies ((proxyStr, result) # rest) s =
     (if result then
        (if \<not> inPool (splitOn CHR '':'' proxyStr) (availableProxies s) then
           (let s1 = s\<lparr>availableProxies := availableProxies s @ [proxyObj s proxyStr]\<rparr>;
                s2 = (if useCache s1 then cacheSet proxyStr True s1 else s1)
            in if targetCount s2 \<le> length (availableProxies s2) then s2
               else addValidProxies rest s2)
         else addValidProxies rest s)
      else if useCache s then addValidProxies rest (cacheSet proxyStr False s)
      else addValidProxies rest s)"

subsection \<open>The validator\<close>

definition isTargetContent :: "body \<Rightarrow> bool" where
  "isTargetContent d =
     (case d of NoData \<Rightarrow> False | NonText \<Rightarrow> False
      | Text t \<Rightarrow> t \<noteq> [] \<and> (strIncludes t ''notion'' \<or> strIncludes t ''Notion''))"

text \<open>
  The try block of \<open>testProxy\<close>, given what axios answered: the rejection is thrown on.
  \<open>isValid\<close> is read by its truthiness, as every caller does (\<open>a && b\<close> gives the falsy
  operand itself).
\<close>

definition testProxyTry :: "response \<Rightarrow> error + bool" where
  "testProxyTry r =
     (case r of NetworkError \<Rightarrow> Inl AxiosError
      | Response status d \<Rightarrow> Inr (status = 200 \<and> isTargetContent d))"

text \<open>\<open>testProxy(proxyUrl)\<close> as call number k: the catch returns false.\<close>

definition testProxy :: "env \<Rightarrow> nat \<Rightarrow> string \<Rightarrow> error + bool" where
  "testProxy env k proxyUrl =
     (case testProxyTry (probe env k proxyUrl) of
        Inl e \<Rightarrow> Inr False
      | Inr isValid \<Rightarrow> Inr isValid)"

subsection \<open>Concurrent validation\<close>

text \<open>
  The test at the head of the \<open>batch.map\<close> callback: the cached verdict when caching is
  on, the key is cached and the entry is fresh.
\<close>

definition cachedResult :: "ProxyPool \<Rightarrow> string \<Rightarrow> bool option" where
  "cachedResult s proxyStr =
     (if useCache s then
        (case map_of (proxyCache s) proxyStr of
           None \<Rightarrow> None
         | Some e \<Rightarrow> if clock s - timestamp e < int (cacheExpiry s) then Some (valid e) else None)
      else None)"

text \<open>
  The promises of one sub-batch, created in order at one instant: a cached verdict
  resolves at once, every other candidate is a call of \<open>testProxy\<close> (the next call
  number), whose rejection would count as false.
\<close>

fun batchResults :: "env \<Rightarrow> ProxyPool \<Rightarrow> nat \<Rightarrow> string list \<Rightarrow> (string \<times> bool) list" where
  "batchResults env s k [] = []"
| "batchResults env s k (proxyStr # rest) =
     (case cachedResult s proxyStr of
        Some v \<Rightarrow> (proxyStr, v) # batchResults env s k rest
      | None \<Rightarrow>
          (proxyStr, (case testProxy env k proxyStr of Inl e \<Rightarrow> False | Inr r \<Rightarrow> r))
          # batchResults env s (Suc k) rest)"

definition probed :: "ProxyPool \<Rightarrow> string list \<Rightarrow> string list" where
  "probed s batch = filter (\<lambda>proxyStr. cachedResult s proxyStr = None) batch"

text \<open>One sub-batch: the probes go out together, \<open>await Promise.all\<close> collects them.\<close>

definition runBatch :: "env \<Rightarrow> string list \<Rightarrow> ProxyPool \<Rightarrow> (string \<times> bool) list \<times> ProxyPool" where
  "runBatch env batch s =
     (let rs = batchResults env s (calls s) batch
      in (rs, s\<lparr>clock := clock s + (if probed s batch = [] then 0 else int (elapsed env (calls s))),
                calls := calls s + length (probed s batch),
                trace := trace s @ [Dispatch (probed s batch), Resolved rs]\<rparr>))"

text \<open>
  The progress shown at the head of each sub-batch (lines 489 to 495) when the bar is on,
  \<open>i\<close> being the index of the sub-batch in a list of \<open>n\<close> candidates.
\<close>

definition batchProgress :: "env \<Rightarrow> nat \<Rightarrow> nat \<Rightarrow> ProxyPool \<Rightarrow> error option \<times> ProxyPool" where
  "batchProgress env i n s =
     (if showProgressBar s then
        showProgress env
          (if i = 0 then progressCurrent s
           else progressFloor env i n (progressCurrent s) (targetCount s))
          (progressTotal s) s
      else (None, s))"

text \<open>
  The loop of \<open>testProxiesConcurrently\<close> over a list of \<open>n\<close> candidates, \<open>proxies\<close> being what
  is left from index i on. An exception of \<open>showProgress\<close> ends the call (\<open>Inl\<close>). With a
  step of 0 the index never moves: the loop runs forever unless the success count breaks
  it, and not returning is \<open>None\<close>.
\<close>

function testBatches ::
  "env \<Rightarrow> nat \<Rightarrow> int \<Rightarrow> nat \<Rightarrow> string list \<Rightarrow> (string \<times> bool) list \<Rightarrow> ProxyPool
   \<Rightarrow> ((error + (string \<times> bool) list) \<times> ProxyPool) option" where
  "testBatches env step remainingNeeded n proxies results s =
     (if proxies = [] then Some (Inr results, s)
      else
        (case batchProgress env (n - length proxies) n s of
           (Some e, s0) \<Rightarrow> Some (Inl e, s0)
         | (None, s0) \<Rightarrow>
             (case runBatch env (take step proxies) s0 of
                (rs, s1) \<Rightarrow>
                  if remainingNeeded \<le> int (length (filter snd (results @ rs)))
                  then Some (Inr (results @ rs), s1)
                  else if step = 0 then None
                  else testBatches env step remainingNeeded n (drop step proxies)
                         (results @ rs) s1)))"
  by pat_completeness auto
termination
  by (relation "measure (\<lambda>(env, step, remainingNeeded, n, proxies, results, s). length proxies)")
    auto

definition testProxiesConcurrently ::
  "env \<Rightarrow> string list \<Rightarrow> ProxyPool \<Rightarrow> ((error + (string \<times> bool) list) \<times> ProxyPool) option" where
  "testProxiesConcurrently env proxies s =
     testBatches env (min (concurrentRequests s * 2) 20)
       (int (targetCount s) - int (length (availableProxies s))) (length proxies) proxies [] s"

subsection \<open>The cache-first pass\<close>

text \<open>
  The scan of \<open>tryUsingCachedProxies\<close> over \<open>proxyCache.entries()\<close>: fresh valid keys are
  collected until there are \<open>neededProxies\<close> of them. The call ends with the exception
  that validation threw, if any (the first component of its result).
\<close>

fun scanCache :: "int \<Rightarrow> nat \<Rightarrow> int \<Rightarrow> (string \<times> cacheEntry) list \<Rightarrow> string list \<Rightarrow> string list" where
  "scanCache now expiry neededProxies [] cachedProxies = cachedProxies"
| "scanCache now expiry neededProxies ((proxyKey, d) # rest) cachedProxies =
     (if now - timestamp d < int expiry \<and> valid d then
        (if neededProxies \<le> int (length (cachedProxies @ [proxyKey]))
         then cachedProxies @ [proxyKey]
         else scanCache now expiry neededProxies rest (cachedProxies @ [proxyKey]))
      else scanCache now expiry neededProxies rest cachedProxies)"

definition tryUsingCachedProxies ::
  "env \<Rightarrow> int \<Rightarrow> ProxyPool \<Rightarrow> (error option \<times> ProxyPool) option" where
  "tryUsingCachedProxies env neededProxies s =
     (let cachedProxies = scanCache (clock s) (cacheExpiry s) neededProxies (proxyCache s) []
      in if cachedProxies \<noteq> [] then
           (case testProxiesConcurrently env cachedProxies s of
              None \<Rightarrow> None
            | Some (Inl e, s1) \<Rightarrow> Some (Some e, s1)
            | Some (Inr results, s1) \<Rightarrow> Some (None, addValidProxies results s1))
         else Some (None, s))"

subsection \<open>The provider\<close>

definition linesOf :: "string \<Rightarrow> string list" where
  "linesOf d = filter (\<lambda>line. trim line \<noteq> []) (splitOn CHR 0x0A (trim d))"

definition candidateOf :: "proxyData \<Rightarrow> string option" where
  "candidateOf d =
     (case (dataIp d, dataPort d) of
        (Some i, Some p) \<Rightarrow>
          (case (dataUsername d, dataPassword d) of
             (Some u, Some w) \<Rightarrow> Some (i @ '':'' @ p @ '':'' @ u @ '':'' @ w)
           | _ \<Rightarrow> Some (i @ '':'' @ p))
      | _ \<Rightarrow> None)"

text \<open>The loop over the lines: a line whose parse throws is logged and passed over.\<close>

primrec parseLines :: "(string \<Rightarrow> proxyData option) \<Rightarrow> string list \<Rightarrow> string list" where
  "parseLines parse [] = []"
| "parseLines parse (line # rest) =
     (case parse line of
        None \<Rightarrow> parseLines parse rest
      | Some d \<Rightarrow>
          (case candidateOf d of
             None \<Rightarrow> parseLines parse rest
           | Some c \<Rightarrow> c # parseLines parse rest))"

text \<open>
  The try block of \<open>getProxiesFromProvider\<close>, given what axios answered. The status is
  not read. Data that is truthy and not a string has no \<open>trim\<close>: a TypeError.
\<close>

definition providerTry :: "(string \<Rightarrow> proxyData option) \<Rightarrow> response \<Rightarrow> error + string list" where
  "providerTry parse r =
     (case r of
        NetworkError \<Rightarrow> Inl AxiosError
      | Response status d \<Rightarrow>
          (case d of
             NoData \<Rightarrow> Inr []
           | NonText \<Rightarrow> Inl TypeError
           | Text t \<Rightarrow> if t = [] then Inr [] else Inr (parseLines parse (linesOf t))))"

definition actualCount :: "nat option \<Rightarrow> ProxyPool \<Rightarrow> nat" where
  "actualCount count s =
     min (case count of None \<Rightarrow> batchSize s | Some n \<Rightarrow> if n = 0 then batchSize s else n) 10"

text \<open>\<open>getProxiesFromProvider(count)\<close>: the catch returns the empty list.\<close>

definition getProxiesFromProvider ::
  "env \<Rightarrow> nat option \<Rightarrow> ProxyPool \<Rightarrow> (error + string list) \<times> ProxyPool" where
  "getProxiesFromProvider env count s =
     (let r = provider env (calls s) (proxyCountry s) (actualCount count s) (proxyProtocol s);
          s1 = s\<lparr>clock := clock s + int (elapsed env (calls s)),
                 calls := calls s + 1,
                 trace := trace s @ [Fetch (proxyCountry s) (actualCount count s) (proxyProtocol s)]\<rparr>
      in (case providerTry (jsonParse env) r of
            Inl e \<Rightarrow> (Inr [], s1)
          | Inr proxies \<Rightarrow> (Inr proxies, s1)))"

subsection \<open>Acquisition and removal\<close>

definition getProxy :: "ProxyPool \<Rightarrow> proxy js \<times> ProxyPool" where
  "getProxy s =
     (if length (availableProxies s) = 0 then (Null, s)
      else
        ((case nth_opt (availableProxies s) (currentIndex s) of
            None \<Rightarrow> Undefined | Some p \<Rightarrow> Obj p),
         s\<lparr>currentIndex := (currentIndex s + 1) mod length (availableProxies s)\<rparr>))"

text \<open>
  \<open>removeProxy(ip, port)\<close> up to its return value, \<open>portStr\<close> being \<open>port.toString()\<close>.
  Its last statement calls \<open>checkAndRefill()\<close> without awaiting it: what that cycle
  does to the pool happens after \<open>removeProxy\<close> has returned, and is the step
  \<open>checkAndRefill\<close> below.
\<close>

definition removeProxy :: "string \<Rightarrow> string \<Rightarrow> ProxyPool \<Rightarrow> bool \<times> ProxyPool" where
  "removeProxy ipAddr portStr s =
     (let initialLength = length (availableProxies s);
          proxyToRemove = find (\<lambda>p. ip p = ipAddr \<and> port p = Some portStr) (availableProxies s);
          s1 = (if proxyToRemove \<noteq> None \<and> useCache s
                then cacheSet (ipAddr @ '':'' @ portStr) False s else s);
          s2 = s1\<lparr>availableProxies :=
                    filter (\<lambda>p. \<not> (ip p = ipAddr \<and> port p = Some portStr)) (availableProxies s1)\<rparr>;
          s3 = (if length (availableProxies s2) \<le> currentIndex s2 \<and> 0 < length (availableProxies s2)
                then s2\<lparr>currentIndex := 0\<rparr> else s2)
      in (length (availableProxies s3) < initialLength, s3))"

subsection \<open>What validation and insertion leave alone\<close>

lemma addValidProxies_config:
  "maxRefillAttempts (addValidProxies results s) = maxRefillAttempts s
   \<and> targetCount (addValidProxies results s) = targetCount s
   \<and> concurrentRequests (addValidProxies results s) = concurrentRequests s
   \<and> isRefilling (addValidProxies results s) = isRefilling s
   \<and> trace (addValidProxies results s) = trace s"
  by (induction results s rule: addValidProxies.induct) (simp_all add: cacheSet_def Let_def)

lemma showProgress_config:
  "showProgress env current totalCount s = (thrown, s1) \<Longrightarrow>
   maxRefillAttempts s1 = maxRefillAttempts s \<and> targetCount s1 = targetCount s
   \<and> concurrentRequests s1 = concurrentRequests s \<and> isRefilling s1 = isRefilling s
   \<and> availableProxies s1 = availableProxies s \<and> proxyCache s1 = proxyCache s
   \<and> useCache s1 = useCache s \<and> currentIndex s1 = currentIndex s
   \<and> trace s1 = trace s \<and> clock s1 = clock s \<and> calls s1 = calls s
   \<and> showProgressBar s1 = showProgressBar s \<and> progressTotal s1 = progressTotal s
   \<and> progressCurrent s1 = progressCurrent s"
  by (auto simp: showProgress_def split: if_splits)

lemma showPoolProgress_config:
  "showPoolProgress env s = (thrown, s1) \<Longrightarrow>
   maxRefillAttempts s1 = maxRefillAttempts s \<and> targetCount s1 = targetCount s
   \<and> concurrentRequests s1 = concurrentRequests s \<and> isRefilling s1 = isRefilling s
   \<and> availableProxies s1 = availableProxies s \<and> proxyCache s1 = proxyCache s
   \<and> useCache s1 = useCache s \<and> currentIndex s1 = currentIndex s
   \<and> trace s1 = trace s \<and> clock s1 = clock s \<and> calls s1 = calls s"
  unfolding showPoolProgress_def by (drule showProgress_config) simp

lemma batchProgress_config:
  "batchProgress env i n s = (thrown, s1) \<Longrightarrow>
   maxRefillAttempts s1 = maxRefillAttempts s \<and> targetCount s1 = targetCount s
   \<and> concurrentRequests s1 = concurrentRequests s \<and> isRefilling s1 = isRefilling s
   \<and> availableProxies s1 = availableProxies s \<and> proxyCache s1 = proxyCache s
   \<and> useCache s1 = useCache s \<and> currentIndex s1 = currentIndex s
   \<and> trace s1 = trace s \<and> clock s1 = clock s \<and> calls s1 = calls s"
  unfolding batchProgress_def
  by (cases "showProgressBar s") (auto dest: showProgress_config)

lemma runBatch_config:
  "runBatch env batch s = (rs, s1) \<Longrightarrow>
   maxRefillAttempts s1 = maxRefillAttempts s \<and> targetCount s1 = targetCount s
   \<and> concurrentRequests s1 = concurrentRequests s \<and> isRefilling s1 = isRefilling s
   \<and> availableProxies s1 = availableProxies s \<and> proxyCache s1 = proxyCache s
   \<and> useCache s1 = useCache s \<and> currentIndex s1 = currentIndex s"
  by (auto simp: runBatch_def Let_def)

lemma testBatches_config:
  "testBatches env step remainingNeeded n proxies results s = Some (r, s1) \<Longrightarrow>
   maxRefillAttempts s1 = maxRefillAttempts s \<and> targetCount s1 = targetCount s
   \<and> concurrentRequests s1 = concurrentRequests s \<and> isRefilling s1 = isRefilling s
   \<and> availableProxies s1 = availableProxies s \<and> proxyCache s1 = proxyCache s
   \<and> useCache s1 = useCache s \<and> currentIndex s1 = currentIndex s"
proof (induction env step remainingNeeded n proxies results s rule: testBatches.induct)
  case (1 env step remainingNeeded n proxies results s)
  show ?case
  proof (cases "proxies = []")
    case True
    with "1.prems" show ?thesis by simp
  next
    case False
    obtain thrown s0 where bp: "batchProgress env (n - length proxies) n s = (thrown, s0)"
      by (cases "batchProgress env (n - length proxies) n s")
    note f0 = batchProgress_config [OF bp]
    show ?thesis
    proof (cases thrown)
      case (Some e)
      with False bp "1.prems" have "s1 = s0" by simp
      with f0 show ?thesis by simp
    next
      case None
      obtain rs s2 where rb: "runBatch env (take step proxies) s0 = (rs, s2)"
        by (cases "runBatch env (take step proxies) s0")
      note fr = runBatch_config [OF rb]
      show ?thesis
      proof (cases "remainingNeeded \<le> int (length (filter snd (results @ rs)))")
        case True
        with False bp None rb "1.prems" have "s1 = s2" by simp
        with f0 fr show ?thesis by simp
      next
        case nb: False
        with False bp None rb "1.prems" have st: "step \<noteq> 0"
          by (auto split: if_splits)
        with False bp None rb nb "1.prems"
        have "testBatches env step remainingNeeded n (drop step proxies) (results @ rs) s2
              = Some (r, s1)" by simp
        from "1.IH" [OF False bp [unfolded None, symmetric] refl rb [symmetric] nb st this] f0 fr
        show ?thesis by simp
      qed
    qed
  qed
qed

lemma testProxiesConcurrently_config:
  "testProxiesConcurrently env proxies s = Some (r, s1) \<Longrightarrow>
   maxRefillAttempts s1 = maxRefillAttempts s \<and> targetCount s1 = targetCount s
   \<and> concurrentRequests s1 = concurrentRequests s \<and> isRefilling s1 = isRefilling s
   \<and> availableProxies s1 = availableProxies s \<and> proxyCache s1 = proxyCache s
   \<and> useCache s1 = useCache s \<and> currentIndex s1 = currentIndex s"
  unfolding testProxiesConcurrently_def by (rule testBatches_config)

lemma getProxiesFromProvider_config:
  "getProxiesFromProvider env count s = (r, s1) \<Longrightarrow>
   maxRefillAttempts s1 = maxRefillAttempts s \<and> targetCount s1 = targetCount s
   \<and> concurrentRequests s1 = concurrentRequests s \<and> isRefilling s1 = isRefilling s
   \<and> availableProxies s1 = availableProxies s \<and> proxyCache s1 = proxyCache s
   \<and> useCache s1 = useCache s \<and> currentIndex s1 = currentIndex s"
  by (auto simp: getProxiesFromProvider_def Let_def split: sum.splits)

lemma sleep_config:
  "maxRefillAttempts (sleep ms s) = maxRefillAttempts s \<and> targetCount (sleep ms s) = targetCount s
   \<and> concurrentRequests (sleep ms s) = concurrentRequests s \<and> isRefilling (sleep ms s) = isRefilling s
   \<and> availableProxies (sleep ms s) = availableProxies s \<and> proxyCache (sleep ms s) = proxyCache s
   \<and> useCache (sleep ms s) = useCache s \<and> currentIndex (sleep ms s) = currentIndex s"
  by (simp add: sleep_def)

subsection \<open>The refill cycle\<close>

text \<open>
  The while loop of \<open>refillProxies\<close>, \<open>attempts\<close> being the attempts made so far. The result
  is the state when the try block is left, with the exception that left it, if any;
  \<open>None\<close> when validation does not return.
\<close>

function refillLoop :: "env \<Rightarrow> nat \<Rightarrow> ProxyPool \<Rightarrow> (error option \<times> ProxyPool) option" where
  "refillLoop env attempts s =
     (if length (availableProxies s) < targetCount s \<and> attempts < maxRefillAttempts s then
        (case getProxiesFromProvider env
                (Some (max (batchSize s) ((targetCount s - length (availableProxies s)) * 2))) s of
           (Inl e, s1) \<Rightarrow> Some (Some e, s1)
         | (Inr proxies, s1) \<Rightarrow>
             if proxies = [] then refillLoop env (attempts + 1) (sleep (retryDelay s1) s1)
             else if filterExistingProxies proxies s1 = [] then refillLoop env (attempts + 1) s1
             else
               (case testProxiesConcurrently env (filterExistingProxies proxies s1) s1 of
                  None \<Rightarrow> None
                | Some (Inl e, s2) \<Rightarrow> Some (Some e, s2)
                | Some (Inr results, s2) \<Rightarrow>
                    (case showPoolProgress env (addValidProxies results s2) of
                       (Some e, s3) \<Rightarrow> Some (Some e, s3)
                     | (None, s3) \<Rightarrow>
                         if targetCount s3 \<le> length (availableProxies s3) then Some (None, s3)
                         else refillLoop env (attempts + 1) (sleep (retryDelay s3) s3))))
      else Some (None, s))"
  by pat_completeness auto
termination
proof (relation "measure (\<lambda>(env, attempts, s). maxRefillAttempts s - attempts)", goal_cases)
  case 1
  show ?case by simp
next
  case (2 env attempts s x1 s1 proxies)
  then show ?case
    using getProxiesFromProvider_config [of env _ s "Inr proxies" s1] sleep_config [of "retryDelay s1" s1]
    by auto
next
  case (3 env attempts s x1 s1 proxies)
  then show ?case
    using getProxiesFromProvider_config [of env _ s "Inr proxies" s1] by auto
next
  case (4 env attempts s x1 s1 proxies x2 x3 s2 results x4 s3)
  then show ?case
    using getProxiesFromProvider_config [of env _ s "Inr proxies" s1]
      testProxiesConcurrently_config [of env _ s1 "Inr results" s2]
      addValidProxies_config [of results s2]
      showPoolProgress_config [of env "addValidProxies results s2" None s3]
      sleep_config [of "retryDelay s3" s3]
    by auto
qed




declare testBatches.simps [simp del] refillLoop.simps [simp del]

subsection \<open>Runs of operations and concrete pools\<close>

text \<open>\<open>n\<close> calls of \<open>getProxy()\<close> in a row, with what each returned.\<close>

fun getProxies :: "nat \<Rightarrow> ProxyPool \<Rightarrow> proxy js list \<times> ProxyPool" where
  "getProxies 0 s = ([], s)"
| "getProxies (Suc n) s =
     (case getProxy s of (p, s1) \<Rightarrow> (case getProxies n s1 of (ps, s2) \<Rightarrow> (p # ps, s2)))"

text \<open>The identity of a pool entry.\<close>

definition identity :: "proxy \<Rightarrow> string \<times> string option \<times> string option \<times> string option" where
  "identity p = (ip p, port p, username p, password p)"

text \<open>\<open>new ProxyPool()\<close> at time 0.\<close>

definition freshPool :: ProxyPool where
  "freshPool = newProxyPool noOptions 0"

lemmas pool_eval = freshPool_def newProxyPool_def noOptions_def orDefault_def getProxy_def
  removeProxy_def inPool_def nth_opt_def proxyObj_def cacheSet_def Let_def

text \<open>
  A pool with a target of three after one cycle that validated three candidates and one
  acquisition: the cursor stands at 1.
\<close>

definition threePool :: ProxyPool where
  "threePool = snd (getProxy (addValidProxies
     [(''1.1.1.1:8080'', True), (''2.2.2.2:8080'', True), (''3.3.3.3:8080'', True)]
     (newProxyPool (noOptions\<lparr>optTargetCount := Some 3\<rparr>) 0)))"

text \<open>
  A world for worked cases. The provider answers every request with status 503 and a
  body of four lines: a candidate, a line that is not JSON, an object without a port,
  and a candidate with credentials. The probe through \<open>1.1.1.1:8080\<close> reaches the target,
  the probe through \<open>2.2.2.2:8080:u:p\<close> is answered 403, every other probe fails.
\<close>

definition demoBody :: string where
  \<open>demoBody = ''{"ip":"1.1.1.1","port":"8080"}\<newline>not json\<newline>{"ip":"3.3.3.3"}\<newline>{"ip":"2.2.2.2","port":"8080","username":"u","password":"p"}\<newline>''\<close>

definition demoParse :: "string \<Rightarrow> proxyData option" where
  \<open>demoParse line =
     (if line = ''{"ip":"1.1.1.1","port":"8080"}''
      then Some \<lparr>dataIp = Some ''1.1.1.1'', dataPort = Some ''8080'',
                  dataUsername = None, dataPassword = None\<rparr>
      else if line = ''{"ip":"2.2.2.2","port":"8080","username":"u","password":"p"}''
      then Some \<lparr>dataIp = Some ''2.2.2.2'', dataPort = Some ''8080'',
                  dataUsername = Some ''u'', dataPassword = Some ''p''\<rparr>
      else if line = ''{"ip":"3.3.3.3"}''
      then Some \<lparr>dataIp = Some ''3.3.3.3'', dataPort = None,
                  dataUsername = None, dataPassword = None\<rparr>
      else None)\<close>

definition demoEnv :: env where
  "demoEnv =
     \<lparr>provider = (\<lambda>k country number proto. Response 503 (Text demoBody)),
      jsonParse = demoParse,
      probe = (\<lambda>k proxyUrl.
         if proxyUrl = ''1.1.1.1:8080'' then Response 200 (Text ''<title>Notion</title>'')
         else if proxyUrl = ''2.2.2.2:8080:u:p'' then Response 403 (Text ''notion'')
         else NetworkError),
      elapsed = (\<lambda>k. 50),
      stdoutTTY = True,
      progressFloor = (\<lambda>i n c t. c)\<rparr>"

text \<open>
  A world in which the provider has nothing, every probe fails and standard output is
  not a terminal (a pipe or a file).
\<close>

definition deadEnv :: env where
  "deadEnv =
     \<lparr>provider = (\<lambda>k country number proto. Response 200 NoData),
      jsonParse = (\<lambda>line. None),
      probe = (\<lambda>k proxyUrl. NetworkError),
      elapsed = (\<lambda>k. 5),
      stdoutTTY = False,
      progressFloor = (\<lambda>i n c t. c)\<rparr>"

text \<open>
  A pool that validated and inserted a proxy with credentials, and the same pool after
  the caller reported that proxy as bad.
\<close>

definition credPool :: ProxyPool where
  "credPool = addValidProxies [(''1.1.1.1:80:u1:p1'', True)] freshPool"

definition removedPool :: ProxyPool where
  "removedPool = snd (removeProxy ''1.1.1.1'' ''80'' credPool)"

text \<open>The keys of the cache entries that are valid and fresh at \<open>now\<close>.\<close>

definition freshValid :: "int \<Rightarrow> nat \<Rightarrow> (string \<times> cacheEntry) list \<Rightarrow> string list" where
  "freshValid now expiry cache =
     map fst (filter (\<lambda>(proxyKey, d). now - timestamp d < int expiry \<and> valid d) cache)"



text \<open>The provider requests in a trace: one per attempt of the fetch loop.\<close>

fun isFetch :: "event \<Rightarrow> bool" where
  "isFetch (Fetch country number proto) = True"
| "isFetch e = False"

definition fetches :: "event list \<Rightarrow> nat" where
  "fetches es = length (filter isFetch es)"











section \<open>Stepping the loops\<close>

lemma showProgress_off: "\<not> showProgressBar s \<Longrightarrow> showProgress env current totalCount s = (None, s)"
  by (simp add: showProgress_def)

lemma batchProgress_off: "\<not> showProgressBar s \<Longrightarrow> batchProgress env i n s = (None, s)"
  by (simp add: batchProgress_def)

lemma testBatches_Nil [simp]:
  "testBatches env step remainingNeeded n [] results s = Some (Inr results, s)"
  by (simp add: testBatches.simps)



lemma testBatches_next:
  "proxies \<noteq> [] \<Longrightarrow> batchProgress env (n - length proxies) n s = (None, s0) \<Longrightarrow>
   runBatch env (take step proxies) s0 = (rs, s1) \<Longrightarrow>
   \<not> remainingNeeded \<le> int (length (filter snd (results @ rs))) \<Longrightarrow> step \<noteq> 0 \<Longrightarrow>
   testBatches env step remainingNeeded n proxies results s
     = testBatches env step remainingNeeded n (drop step proxies) (results @ rs) s1"
  by (simp add: testBatches.simps)


lemma refillLoop_empty:
  assumes "length (availableProxies s) < targetCount s" "attempts < maxRefillAttempts s"
    and "getProxiesFromProvider env
           (Some (max (batchSize s) ((targetCount s - length (availableProxies s)) * 2))) s
         = (Inr [], s1)"
  shows "refillLoop env attempts s = refillLoop env (attempts + 1) (sleep (retryDelay s1) s1)"
  using assms by (subst refillLoop.simps) simp



section \<open>Round-robin acquisition\<close>

lemma getProxy_in_range:
  "currentIndex s < length (availableProxies s) \<Longrightarrow>
   getProxy s = (Obj (availableProxies s ! currentIndex s),
                 s\<lparr>currentIndex := (currentIndex s + 1) mod length (availableProxies s)\<rparr>)"
  by (auto simp: getProxy_def nth_opt_def)

lemma getProxies_run:
  "currentIndex s < length (availableProxies s) \<Longrightarrow>
   getProxies n s =
     (map (\<lambda>j. Obj (availableProxies s ! ((currentIndex s + j) mod length (availableProxies s)))) [0..<n],
      s\<lparr>currentIndex := (currentIndex s + n) mod length (availableProxies s)\<rparr>)"
proof (induction n arbitrary: s)
  case 0
  then show ?case by simp
next
  case (Suc n)
  let ?K = "length (availableProxies s)"
  let ?s1 = "s\<lparr>currentIndex := (currentIndex s + 1) mod ?K\<rparr>"
  have K: "0 < ?K" using Suc.prems by (cases "availableProxies s") auto
  have r: "currentIndex ?s1 < length (availableProxies ?s1)" using K by simp
  have shift: "\<And>j. ((currentIndex s + 1) mod ?K + j) mod ?K = (currentIndex s + Suc j) mod ?K"
    by (simp add: mod_add_left_eq)
  have m: "map (\<lambda>j. Obj (availableProxies s ! ((currentIndex s + j) mod ?K))) [0..<Suc n]
        = Obj (availableProxies s ! currentIndex s)
          # map (\<lambda>j. Obj (availableProxies s ! ((currentIndex s + Suc j) mod ?K))) [0..<n]"
    using Suc.prems by (simp add: upt_conv_Cons map_Suc_upt [symmetric] del: upt_Suc)
  show ?case
    using Suc.IH [OF r] getProxy_in_range [OF Suc.prems] m shift
    by (simp del: upt_Suc)
qed

lemma rotate_as_map:
  "m < length xs \<Longrightarrow>
   map (\<lambda>j. f (xs ! ((m + j) mod length xs))) [0..<length xs] = map f (rotate m xs)"
  by (rule nth_equalityI) (simp_all add: nth_rotate)

lemma count_list_rotate: "count_list (rotate m xs) x = count_list xs x"
  by (simp add: rotate_drop_take ac_simps flip: count_list_append)
    (metis append_take_drop_id count_list_append add.commute)

lemma count_list_map_Obj: "count_list (map Obj xs) (Obj p) = count_list xs p"
  by (induction xs) auto

text \<open>
  C6. \<open>getProxy()\<close> on an empty pool returns \<open>null\<close> and changes nothing. With the cursor
  in range it returns the entry at the cursor and moves the cursor on by one modulo the
  length. With K entries and the cursor at i, K calls in a row return the entries in the
  cyclic order i, i+1, ..., K-1, 0, ..., i-1, each as often as it stands in the pool
  (once), and leave the state as it was, so that call K+1 returns what the first did.
\<close>

theorem getProxy_round_robin:
  "(availableProxies s = [] \<longrightarrow> getProxy s = (Null, s)) \<and>
   (currentIndex s < length (availableProxies s) \<longrightarrow>
      getProxy s = (Obj (availableProxies s ! currentIndex s),
                    s\<lparr>currentIndex := (currentIndex s + 1) mod length (availableProxies s)\<rparr>)
      \<and> getProxies (length (availableProxies s)) s
          = (map Obj (rotate (currentIndex s) (availableProxies s)), s)
      \<and> (\<forall>p. count_list (fst (getProxies (length (availableProxies s)) s)) (Obj p)
              = count_list (availableProxies s) p)
      \<and> fst (getProxy (snd (getProxies (length (availableProxies s)) s))) = fst (getProxy s))"
proof (intro conjI impI)
  assume "availableProxies s = []"
  then show "getProxy s = (Null, s)" by (simp add: getProxy_def)
next
  assume r: "currentIndex s < length (availableProxies s)"
  show "getProxy s = (Obj (availableProxies s ! currentIndex s),
                    s\<lparr>currentIndex := (currentIndex s + 1) mod length (availableProxies s)\<rparr>)"
    by (rule getProxy_in_range [OF r])
  have run: "getProxies (length (availableProxies s)) s
          = (map Obj (rotate (currentIndex s) (availableProxies s)), s)"
    using getProxies_run [OF r, of "length (availableProxies s)"] r
    by (simp add: rotate_as_map)
  show "getProxies (length (availableProxies s)) s
          = (map Obj (rotate (currentIndex s) (availableProxies s)), s)" by (rule run)
  show "\<forall>p. count_list (fst (getProxies (length (availableProxies s)) s)) (Obj p)
              = count_list (availableProxies s) p"
    by (simp add: run count_list_rotate count_list_map_Obj)
  show "fst (getProxy (snd (getProxies (length (availableProxies s)) s))) = fst (getProxy s)"
    by (simp add: run)
qed

theorem getProxy_round_robin_witness:
  "availableProxies freshPool = [] \<and> getProxy freshPool = (Null, freshPool)
   \<and> map full (availableProxies threePool)
       = [''http://1.1.1.1:8080'', ''http://2.2.2.2:8080'', ''http://3.3.3.3:8080'']
   \<and> currentIndex threePool = 1
   \<and> getProxies 3 threePool = (map Obj (rotate 1 (availableProxies threePool)), threePool)
   \<and> fst (getProxy (snd (getProxies 3 threePool))) = fst (getProxy threePool)"
proof -
  have e: "availableProxies freshPool = []"
    by (simp add: freshPool_def newProxyPool_def)
  have pool: "map full (availableProxies threePool)
       = [''http://1.1.1.1:8080'', ''http://2.2.2.2:8080'', ''http://3.3.3.3:8080'']"
    and idx: "currentIndex threePool = 1"
    by (simp_all add: threePool_def pool_eval)
  have len: "length (availableProxies threePool) = 3"
    using pool by (auto dest: map_eq_imp_length_eq)
  have r: "currentIndex threePool < length (availableProxies threePool)"
    by (simp add: idx len)
  show ?thesis
    using getProxy_round_robin [of freshPool] getProxy_round_robin [of threePool] e pool idx len r
    by simp
qed

section \<open>Uniqueness of pool entries\<close>

lemma not_inPool_identity:
  "\<not> inPool (splitOn CHR '':'' proxyStr) pool \<Longrightarrow>
   identity (proxyObj s proxyStr) \<notin> set (map identity pool)"
  by (auto simp: proxyObj_def inPool_def Let_def list_ex_iff identity_def split: if_splits)

lemma addValidProxies_unique:
  "distinct (map identity (availableProxies s)) \<Longrightarrow>
   distinct (map identity (availableProxies (addValidProxies results s)))"
proof (induction results s rule: addValidProxies.induct)
  case (1 s)
  then show ?case by simp
next
  case (2 proxyStr result rest s)
  show ?case
  proof (cases "result \<and> \<not> inPool (splitOn CHR '':'' proxyStr) (availableProxies s)")
    case True
    let ?s1 = "s\<lparr>availableProxies := availableProxies s @ [proxyObj s proxyStr]\<rparr>"
    let ?s2 = "if useCache ?s1 then cacheSet proxyStr True ?s1 else ?s1"
    have d2: "distinct (map identity (availableProxies ?s2))"
      using "2.prems" not_inPool_identity [of proxyStr "availableProxies s" s] True
      by (auto simp: cacheSet_def)
    show ?thesis
    proof (cases "targetCount ?s2 \<le> length (availableProxies ?s2)")
      case full: True
      with True have "addValidProxies ((proxyStr, result) # rest) s = ?s2"
        by (simp add: Let_def)
      with d2 show ?thesis by simp
    next
      case more: False
      with True have e: "addValidProxies ((proxyStr, result) # rest) s = addValidProxies rest ?s2"
        by (simp add: Let_def)
      from True more have "distinct (map identity (availableProxies (addValidProxies rest ?s2)))"
        by (intro "2.IH"(1) [OF _ _ refl refl _ d2]) simp_all
      with e show ?thesis by simp
    qed
  next
    case False
    then show ?thesis
      using "2.IH"(2,3,4) "2.prems" by (auto simp: cacheSet_def)
  qed
qed

text \<open>
  C5. Whatever lists of test results \<open>addValidProxies\<close> is called on, one call after the
  other (the cache pass and every attempt of the fetch loop insert through it), a pool
  in which no two entries have the same (ip, port, username, password) stays such a
  pool. The pool of a new \<open>ProxyPool\<close> is empty, so it holds in every pool built by
  insertions.
\<close>

theorem pool_identity_unique:
  "distinct (map identity (availableProxies s)) \<Longrightarrow>
   distinct (map identity (availableProxies (fold addValidProxies rss s)))"
proof (induction rss arbitrary: s)
  case Nil
  then show ?case by simp
next
  case (Cons rs rss)
  then show ?case by (simp add: addValidProxies_unique)
qed

theorem pool_identity_unique_witness:
  "distinct (map identity (availableProxies freshPool)) \<and>
   map full (availableProxies (fold addValidProxies
      [[(''1.1.1.1:8080'', True), (''2.2.2.2:8080:u:p'', True)],
       [(''1.1.1.1:8080'', True), (''2.2.2.2:8080:u:p'', True), (''2.2.2.2:8080:u:q'', True)]]
      freshPool))
     = [''http://1.1.1.1:8080'', ''http://u:p@2.2.2.2:8080'', ''http://u:q@2.2.2.2:8080''] \<and>
   distinct (map identity (availableProxies (fold addValidProxies
      [[(''1.1.1.1:8080'', True), (''2.2.2.2:8080:u:p'', True)],
       [(''1.1.1.1:8080'', True), (''2.2.2.2:8080:u:p'', True), (''2.2.2.2:8080:u:q'', True)]]
      freshPool)))"
proof -
  have h: "distinct (map identity (availableProxies freshPool))"
    by (simp add: freshPool_def newProxyPool_def)
  have e: "map full (availableProxies (fold addValidProxies
      [[(''1.1.1.1:8080'', True), (''2.2.2.2:8080:u:p'', True)],
       [(''1.1.1.1:8080'', True), (''2.2.2.2:8080:u:p'', True), (''2.2.2.2:8080:u:q'', True)]]
      freshPool))
     = [''http://1.1.1.1:8080'', ''http://u:p@2.2.2.2:8080'', ''http://u:q@2.2.2.2:8080'']"
    by (simp add: pool_eval)
  show ?thesis using h e pool_identity_unique [OF h] by blast
qed

section \<open>The validator\<close>

lemma take_eq_iff_prefix: "take (length sub) xs = sub \<longleftrightarrow> (\<exists>post. xs = sub @ post)"
  by (metis append_eq_conv_conj append_take_drop_id)

lemma strIncludes_iff: "strIncludes t sub \<longleftrightarrow> (\<exists>pre post. t = pre @ sub @ post)"
proof (induction t)
  case Nil
  then show ?case by auto
next
  case (Cons c cs)
  have "(\<exists>pre post. c # cs = pre @ sub @ post)
        \<longleftrightarrow> (\<exists>post. c # cs = sub @ post) \<or> (\<exists>pre post. cs = pre @ sub @ post)"
  proof
    assume "\<exists>pre post. c # cs = pre @ sub @ post"
    then obtain pre post where e: "c # cs = pre @ sub @ post" by blast
    show "(\<exists>post. c # cs = sub @ post) \<or> (\<exists>pre post. cs = pre @ sub @ post)"
    proof (cases pre)
      case Nil
      with e show ?thesis by auto
    next
      case (Cons a pre')
      with e have "cs = pre' @ sub @ post" by simp
      then show ?thesis by blast
    qed
  next
    assume "(\<exists>post. c # cs = sub @ post) \<or> (\<exists>pre post. cs = pre @ sub @ post)"
    then show "\<exists>pre post. c # cs = pre @ sub @ post"
    proof
      assume "\<exists>post. c # cs = sub @ post"
      then obtain post where "c # cs = [] @ sub @ post" by auto
      then show ?thesis by blast
    next
      assume "\<exists>pre post. cs = pre @ sub @ post"
      then obtain pre post where "c # cs = (c # pre) @ sub @ post" by auto
      then show ?thesis by blast
    qed
  qed
  with Cons.IH show ?case
    by (simp only: strIncludes.simps take_eq_iff_prefix)
qed

text \<open>
  C7. \<open>testProxy\<close> answers true exactly when the probe's response has status 200 and its
  body is a string that contains \<open>notion\<close> or \<open>Notion\<close> (the markers the code looks for);
  a body that is not a string, an empty body, any other status and a rejected request
  (network error, timeout) all answer false; and whatever the probe does, the call
  returns a value and throws nothing.
\<close>

theorem testProxy_classification:
  "(\<forall>status t. probe env k proxyUrl = Response status (Text t) \<longrightarrow>
      testProxy env k proxyUrl
        = Inr (status = 200 \<and> ((\<exists>pre post. t = pre @ ''notion'' @ post)
                               \<or> (\<exists>pre post. t = pre @ ''Notion'' @ post))))
   \<and> (\<forall>status. probe env k proxyUrl = Response status NoData
                 \<or> probe env k proxyUrl = Response status NonText \<longrightarrow>
        testProxy env k proxyUrl = Inr False)
   \<and> (probe env k proxyUrl = NetworkError \<longrightarrow> testProxy env k proxyUrl = Inr False)
   \<and> (\<exists>b. testProxy env k proxyUrl = Inr b)"
proof (intro conjI allI impI)
  fix status t
  assume "probe env k proxyUrl = Response status (Text t)"
  then show "testProxy env k proxyUrl
        = Inr (status = 200 \<and> ((\<exists>pre post. t = pre @ ''notion'' @ post)
                               \<or> (\<exists>pre post. t = pre @ ''Notion'' @ post)))"
    by (auto simp: testProxy_def testProxyTry_def isTargetContent_def strIncludes_iff
        simp del: strIncludes.simps)
next
  fix status
  assume "probe env k proxyUrl = Response status NoData
          \<or> probe env k proxyUrl = Response status NonText"
  then show "testProxy env k proxyUrl = Inr False"
    by (auto simp: testProxy_def testProxyTry_def isTargetContent_def)
next
  assume "probe env k proxyUrl = NetworkError"
  then show "testProxy env k proxyUrl = Inr False"
    by (simp add: testProxy_def testProxyTry_def)
next
  show "\<exists>b. testProxy env k proxyUrl = Inr b"
    by (cases "testProxyTry (probe env k proxyUrl)") (auto simp: testProxy_def)
qed

theorem testProxy_classification_witness:
  "probe demoEnv 0 ''1.1.1.1:8080'' = Response 200 (Text ''<title>Notion</title>'')
   \<and> testProxy demoEnv 0 ''1.1.1.1:8080'' = Inr True
   \<and> probe demoEnv 1 ''2.2.2.2:8080:u:p'' = Response 403 (Text ''notion'')
   \<and> testProxy demoEnv 1 ''2.2.2.2:8080:u:p'' = Inr False
   \<and> probe demoEnv 2 ''9.9.9.9:1'' = NetworkError
   \<and> testProxy demoEnv 2 ''9.9.9.9:1'' = Inr False"
proof -
  have p1: "probe demoEnv 0 ''1.1.1.1:8080'' = Response 200 (Text ''<title>Notion</title>'')"
    and p2: "probe demoEnv 1 ''2.2.2.2:8080:u:p'' = Response 403 (Text ''notion'')"
    and p3: "probe demoEnv 2 ''9.9.9.9:1'' = NetworkError"
    by (simp_all add: demoEnv_def)
  have c: "\<exists>pre post. ''<title>Notion</title>'' = pre @ ''Notion'' @ post"
    by (rule exI [of _ "''<title>''"], rule exI [of _ "''</title>''"]) simp
  have t1: "testProxy demoEnv 0 ''1.1.1.1:8080'' = Inr True"
    using testProxy_classification [of demoEnv 0 "''1.1.1.1:8080''", THEN conjunct1, rule_format, OF p1] c
    by simp
  have t2: "testProxy demoEnv 1 ''2.2.2.2:8080:u:p'' = Inr False"
    using testProxy_classification [of demoEnv 1 "''2.2.2.2:8080:u:p''", THEN conjunct1, rule_format, OF p2]
    by simp
  have t3: "testProxy demoEnv 2 ''9.9.9.9:1'' = Inr False"
    using testProxy_classification [of demoEnv 2 "''9.9.9.9:1''"] p3 by simp
  show ?thesis using p1 p2 p3 t1 t2 t3 by simp
qed

section \<open>The provider\<close>

lemma linesOf_demoBody:
  \<open>linesOf demoBody =
     [''{"ip":"1.1.1.1","port":"8080"}'', ''not json'', ''{"ip":"3.3.3.3"}'',
      ''{"ip":"2.2.2.2","port":"8080","username":"u","password":"p"}'']\<close>
  by (simp add: linesOf_def demoBody_def trim_def isSpace_def)

lemma parseLines_demo:
  "parseLines demoParse (linesOf demoBody) = [''1.1.1.1:8080'', ''2.2.2.2:8080:u:p'']"
  by (simp add: linesOf_demoBody demoParse_def candidateOf_def)

lemma parseLines_append:
  "parseLines parse (xs @ ys) = parseLines parse xs @ parseLines parse ys"
  by (induction xs) (simp_all split: option.splits)

lemma linesOf_Nil: "linesOf [] = []"
  by (simp add: linesOf_def trim_def)

text \<open>
  C8, as stated, fails on the status: the request is made with
  \<open>validateStatus: status => true\<close> and the status is never read, so a 503 response whose
  body holds candidates yields them.
\<close>

theorem getProxiesFromProvider_status_counterexample:
  "provider demoEnv (calls freshPool) (proxyCountry freshPool) (actualCount None freshPool)
     (proxyProtocol freshPool) = Response 503 (Text demoBody)
   \<and> fst (getProxiesFromProvider demoEnv None freshPool) = Inr [''1.1.1.1:8080'', ''2.2.2.2:8080:u:p'']"
proof -
  have r: "provider demoEnv (calls freshPool) (proxyCountry freshPool) (actualCount None freshPool)
     (proxyProtocol freshPool) = Response 503 (Text demoBody)"
    by (simp add: demoEnv_def)
  have ne: "demoBody \<noteq> []" by (simp add: demoBody_def)
  have j: "jsonParse demoEnv = demoParse" by (simp add: demoEnv_def)
  show ?thesis
    using r ne by (simp add: getProxiesFromProvider_def providerTry_def Let_def j parseLines_demo)
qed

text \<open>
  C8, amended. Every call asks the provider for at most 10 candidates, in one request.
  The call always returns a list and throws nothing. A response with a string body, of
  any status, yields the candidates of its lines; a line that does not parse, or that
  has no ip or no port, adds nothing and the lines around it are read as without it. A
  rejected request, a missing or empty body and a body that is not a string yield the
  empty list.
\<close>

theorem getProxiesFromProvider_contract:
  "actualCount count s \<le> 10
   \<and> trace (snd (getProxiesFromProvider env count s))
       = trace s @ [Fetch (proxyCountry s) (actualCount count s) (proxyProtocol s)]
   \<and> (\<exists>proxies. fst (getProxiesFromProvider env count s) = Inr proxies)
   \<and> (\<forall>status t.
         provider env (calls s) (proxyCountry s) (actualCount count s) (proxyProtocol s)
           = Response status (Text t) \<longrightarrow>
         fst (getProxiesFromProvider env count s) = Inr (parseLines (jsonParse env) (linesOf t)))
   \<and> (\<forall>status.
         provider env (calls s) (proxyCountry s) (actualCount count s) (proxyProtocol s)
           = NetworkError
         \<or> provider env (calls s) (proxyCountry s) (actualCount count s) (proxyProtocol s)
           = Response status NoData
         \<or> provider env (calls s) (proxyCountry s) (actualCount count s) (proxyProtocol s)
           = Response status NonText \<longrightarrow>
         fst (getProxiesFromProvider env count s) = Inr [])
   \<and> (\<forall>before line after.
         jsonParse env line = None
         \<or> (\<exists>d. jsonParse env line = Some d \<and> (dataIp d = None \<or> dataPort d = None)) \<longrightarrow>
         parseLines (jsonParse env) (before @ line # after)
           = parseLines (jsonParse env) before @ parseLines (jsonParse env) after)"
proof (intro conjI allI impI)
  show "actualCount count s \<le> 10" by (simp add: actualCount_def)
  show "trace (snd (getProxiesFromProvider env count s))
       = trace s @ [Fetch (proxyCountry s) (actualCount count s) (proxyProtocol s)]"
    by (simp add: getProxiesFromProvider_def Let_def split: sum.splits)
  show "\<exists>proxies. fst (getProxiesFromProvider env count s) = Inr proxies"
    by (simp add: getProxiesFromProvider_def Let_def split: sum.splits)
next
  fix status t
  assume "provider env (calls s) (proxyCountry s) (actualCount count s) (proxyProtocol s)
           = Response status (Text t)"
  then show "fst (getProxiesFromProvider env count s) = Inr (parseLines (jsonParse env) (linesOf t))"
    by (simp add: getProxiesFromProvider_def providerTry_def Let_def linesOf_Nil)
next
  fix status
  assume "provider env (calls s) (proxyCountry s) (actualCount count s) (proxyProtocol s)
           = NetworkError
         \<or> provider env (calls s) (proxyCountry s) (actualCount count s) (proxyProtocol s)
           = Response status NoData
         \<or> provider env (calls s) (proxyCountry s) (actualCount count s) (proxyProtocol s)
           = Response status NonText"
  then show "fst (getProxiesFromProvider env count s) = Inr []"
    by (auto simp: getProxiesFromProvider_def providerTry_def Let_def)
next
  fix before line after
  assume "jsonParse env line = None
         \<or> (\<exists>d. jsonParse env line = Some d \<and> (dataIp d = None \<or> dataPort d = None))"
  then have "parseLines (jsonParse env) (line # after) = parseLines (jsonParse env) after"
    by (auto simp: candidateOf_def split: option.splits)
  then show "parseLines (jsonParse env) (before @ line # after)
           = parseLines (jsonParse env) before @ parseLines (jsonParse env) after"
    by (simp add: parseLines_append)
qed

theorem getProxiesFromProvider_contract_witness:
  "actualCount (Some 40) freshPool \<le> 10
   \<and> trace (snd (getProxiesFromProvider demoEnv (Some 40) freshPool)) = [Fetch ''us'' 10 ''http'']
   \<and> provider demoEnv 0 ''us'' 10 ''http'' = Response 503 (Text demoBody)
   \<and> fst (getProxiesFromProvider demoEnv (Some 40) freshPool)
       = Inr [''1.1.1.1:8080'', ''2.2.2.2:8080:u:p'']
   \<and> jsonParse demoEnv ''not json'' = None
   \<and> parseLines (jsonParse demoEnv) ([] @ ''not json'' # [])
       = parseLines (jsonParse demoEnv) [] @ parseLines (jsonParse demoEnv) []"
proof -
  have a: "actualCount (Some 40) freshPool = 10"
    by (simp add: actualCount_def freshPool_def newProxyPool_def)
  have f: "calls freshPool = 0" "proxyCountry freshPool = ''us''" "proxyProtocol freshPool = ''http''"
    "trace freshPool = []"
    by (simp_all add: freshPool_def newProxyPool_def)
  have r: "provider demoEnv 0 ''us'' 10 ''http'' = Response 503 (Text demoBody)"
    by (simp add: demoEnv_def)
  have j: "jsonParse demoEnv = demoParse" by (simp add: demoEnv_def)
  have b: "jsonParse demoEnv ''not json'' = None" by (simp add: j demoParse_def)
  show ?thesis
    using getProxiesFromProvider_contract [of "Some 40" freshPool demoEnv] a f r b
    by (simp add: j parseLines_demo)
qed

section \<open>Removal and the cache\<close>

lemma scanCache_all:
  "int (length cachedProxies + length cache) \<le> neededProxies \<Longrightarrow>
   scanCache now expiry neededProxies cache cachedProxies
     = cachedProxies @ freshValid now expiry cache"
proof (induction cache arbitrary: cachedProxies)
  case Nil
  then show ?case by (simp add: freshValid_def)
next
  case (Cons a cache)
  obtain proxyKey d where a: "a = (proxyKey, d)" by (cases a)
  show ?case
  proof (cases "now - timestamp d < int expiry \<and> valid d")
    case True
    show ?thesis
    proof (cases "neededProxies \<le> int (length (cachedProxies @ [proxyKey]))")
      case full: True
      with Cons.prems have "cache = []" by (cases cache) auto
      with True full a show ?thesis by (simp add: freshValid_def)
    next
      case more: False
      from Cons.prems have "int (length (cachedProxies @ [proxyKey]) + length cache) \<le> neededProxies"
        by simp
      from Cons.IH [OF this] True more a show ?thesis by (simp add: freshValid_def)
    qed
  next
    case False
    from Cons.prems have "int (length cachedProxies + length cache) \<le> neededProxies" by simp
    from Cons.IH [OF this] False a show ?thesis by (auto simp: freshValid_def)
  qed
qed

lemma map_of_update_other:
  "k \<noteq> k' \<Longrightarrow> map_of (AList.update k' v al) k = map_of al k"
  by (simp add: update_conv')

lemma length_update_le: "length (AList.update k v al) \<le> Suc (length al)"
  by (induction al) auto

lemma colon_key_neq:
  "ipAddr @ '':'' @ portStr @ '':'' @ rest \<noteq> ipAddr @ '':'' @ portStr"
  by simp

text \<open>
  C10. When caching is on and \<open>removeProxy(ip, port)\<close> finds a pooled proxy, it removes
  every entry on that ip and port and writes one cache entry, invalid, under the key
  \<open>ip:port\<close>; every other key keeps its entry. A key \<open>ip:port:username:password\<close> is
  another key: if its entry was valid and fresh it still is, the validation loop takes
  it as a verdict (\<open>cachedResult\<close>), and the scan of the next cache pass selects it
  (here for a pass that needs more proxies than the cache holds).
\<close>

theorem removeProxy_keeps_credentialed_cache_entry:
  assumes "useCache s"
    and "find (\<lambda>p. ip p = ipAddr \<and> port p = Some portStr) (availableProxies s) \<noteq> None"
    and "map_of (proxyCache s) (ipAddr @ '':'' @ portStr @ '':'' @ u @ '':'' @ w) = Some e"
    and "valid e"
    and "clock s - timestamp e < int (cacheExpiry s)"
    and "int (length (proxyCache s)) < neededProxies"
  shows
    "fst (removeProxy ipAddr portStr s)
     \<and> proxyCache (snd (removeProxy ipAddr portStr s))
         = AList.update (ipAddr @ '':'' @ portStr) \<lparr>valid = False, timestamp = clock s\<rparr> (proxyCache s)
     \<and> (\<forall>proxyKey. proxyKey \<noteq> ipAddr @ '':'' @ portStr \<longrightarrow>
           map_of (proxyCache (snd (removeProxy ipAddr portStr s))) proxyKey
             = map_of (proxyCache s) proxyKey)
     \<and> map_of (proxyCache (snd (removeProxy ipAddr portStr s)))
           (ipAddr @ '':'' @ portStr @ '':'' @ u @ '':'' @ w) = Some e
     \<and> \<not> list_ex (\<lambda>p. ip p = ipAddr \<and> port p = Some portStr)
           (availableProxies (snd (removeProxy ipAddr portStr s)))
     \<and> cachedResult (snd (removeProxy ipAddr portStr s))
           (ipAddr @ '':'' @ portStr @ '':'' @ u @ '':'' @ w) = Some True
     \<and> ipAddr @ '':'' @ portStr @ '':'' @ u @ '':'' @ w
         \<in> set (scanCache (clock (snd (removeProxy ipAddr portStr s)))
                  (cacheExpiry (snd (removeProxy ipAddr portStr s))) neededProxies
                  (proxyCache (snd (removeProxy ipAddr portStr s))) [])"
proof -
  let ?key = "ipAddr @ '':'' @ portStr @ '':'' @ u @ '':'' @ w"
  let ?s' = "snd (removeProxy ipAddr portStr s)"
  let ?P = "\<lambda>p. ip p = ipAddr \<and> port p = Some portStr"
  have cache': "proxyCache ?s'
      = AList.update (ipAddr @ '':'' @ portStr) \<lparr>valid = False, timestamp = clock s\<rparr> (proxyCache s)"
    using assms(1,2) by (simp add: removeProxy_def cacheSet_def Let_def)
  have pool': "availableProxies ?s' = filter (\<lambda>p. \<not> ?P p) (availableProxies s)"
    by (simp add: removeProxy_def cacheSet_def Let_def)
  have frame: "clock ?s' = clock s" "cacheExpiry ?s' = cacheExpiry s" "useCache ?s' = useCache s"
    by (simp_all add: removeProxy_def cacheSet_def Let_def)
  from assms(2) obtain p where "p \<in> set (availableProxies s)" "?P p"
    by (auto simp: find_None_iff)
  then have "length (filter (\<lambda>p. \<not> ?P p) (availableProxies s)) < length (availableProxies s)"
    by (intro length_filter_less) auto
  then have removed: "fst (removeProxy ipAddr portStr s)"
    by (simp add: removeProxy_def cacheSet_def Let_def)
  have other: "map_of (proxyCache ?s') proxyKey = map_of (proxyCache s) proxyKey"
    if "proxyKey \<noteq> ipAddr @ '':'' @ portStr" for proxyKey
    using that by (simp add: cache' map_of_update_other)
  have kept: "map_of (proxyCache ?s') ?key = Some e"
    using other [of ?key] assms(3) by simp
  have gone: "\<not> list_ex ?P (availableProxies ?s')"
    by (simp add: pool' list_ex_iff)
  have hit: "cachedResult ?s' ?key = Some True"
    using kept assms(1,4,5) by (simp add: cachedResult_def frame)
  have "int (length ([] :: string list) + length (proxyCache ?s')) \<le> neededProxies"
    using assms(6)
      length_update_le [of "ipAddr @ '':'' @ portStr" "\<lparr>valid = False, timestamp = clock s\<rparr>" "proxyCache s"]
    unfolding cache' by simp
  from scanCache_all [OF this]
  have scan: "scanCache (clock ?s') (cacheExpiry ?s') neededProxies (proxyCache ?s') []
      = freshValid (clock ?s') (cacheExpiry ?s') (proxyCache ?s')" by simp
  from kept have "(?key, e) \<in> set (proxyCache ?s')" by (rule map_of_SomeD)
  with assms(4,5) have "?key \<in> set (freshValid (clock ?s') (cacheExpiry ?s') (proxyCache ?s'))"
    by (force simp: freshValid_def frame)
  with scan have sel: "?key \<in> set (scanCache (clock ?s') (cacheExpiry ?s') neededProxies
      (proxyCache ?s') [])" by simp
  from removed cache' other kept gone hit sel show ?thesis by blast
qed

lemma credPool_eq:
  "credPool = freshPool\<lparr>
     availableProxies := [\<lparr>ip = ''1.1.1.1'', port = Some ''80'', protocol = ''http'',
        full = ''http://u1:p1@1.1.1.1:80'', addedAt = 0,
        username = Some ''u1'', password = Some ''p1''\<rparr>],
     proxyCache := [(''1.1.1.1:80:u1:p1'', \<lparr>valid = True, timestamp = 0\<rparr>)]\<rparr>"
  by (simp add: credPool_def pool_eval)

lemma removedPool_eq:
  "removedPool = freshPool\<lparr>proxyCache := [(''1.1.1.1:80:u1:p1'', \<lparr>valid = True, timestamp = 0\<rparr>),
                                      (''1.1.1.1:80'', \<lparr>valid = False, timestamp = 0\<rparr>)]\<rparr>"
  by (simp add: removedPool_def credPool_eq pool_eval)

theorem removeProxy_keeps_credentialed_cache_entry_witness:
  "useCache credPool
   \<and> find (\<lambda>p. ip p = ''1.1.1.1'' \<and> port p = Some ''80'') (availableProxies credPool) \<noteq> None
   \<and> map_of (proxyCache credPool) ''1.1.1.1:80:u1:p1'' = Some \<lparr>valid = True, timestamp = 0\<rparr>
   \<and> clock credPool - 0 < int (cacheExpiry credPool)
   \<and> int (length (proxyCache credPool)) < 20
   \<and> fst (removeProxy ''1.1.1.1'' ''80'' credPool)
   \<and> map_of (proxyCache (snd (removeProxy ''1.1.1.1'' ''80'' credPool))) ''1.1.1.1:80:u1:p1''
       = Some \<lparr>valid = True, timestamp = 0\<rparr>
   \<and> cachedResult (snd (removeProxy ''1.1.1.1'' ''80'' credPool)) ''1.1.1.1:80:u1:p1'' = Some True
   \<and> ''1.1.1.1:80:u1:p1''
       \<in> set (scanCache (clock (snd (removeProxy ''1.1.1.1'' ''80'' credPool)))
                (cacheExpiry (snd (removeProxy ''1.1.1.1'' ''80'' credPool))) 20
                (proxyCache (snd (removeProxy ''1.1.1.1'' ''80'' credPool))) [])"
proof -
  have h1: "useCache credPool"
    and h2: "find (\<lambda>p. ip p = ''1.1.1.1'' \<and> port p = Some ''80'') (availableProxies credPool) \<noteq> None"
    and h3: "map_of (proxyCache credPool) (''1.1.1.1'' @ '':'' @ ''80'' @ '':'' @ ''u1'' @ '':'' @ ''p1'')
               = Some \<lparr>valid = True, timestamp = 0\<rparr>"
    and h4: "valid \<lparr>valid = True, timestamp = 0\<rparr>"
    and h5: "clock credPool - timestamp \<lparr>valid = True, timestamp = 0\<rparr> < int (cacheExpiry credPool)"
    and h6: "int (length (proxyCache credPool)) < 20"
    by (simp_all add: credPool_eq freshPool_def newProxyPool_def noOptions_def orDefault_def)
  note t = removeProxy_keeps_credentialed_cache_entry [OF h1 h2 h3 h4 h5 h6]
  have k: "''1.1.1.1'' @ '':'' @ ''80'' @ '':'' @ ''u1'' @ '':'' @ ''p1'' = ''1.1.1.1:80:u1:p1''"
    by simp
  note c1 = t [THEN conjunct1]
  note c2 = t [THEN conjunct2, THEN conjunct2, THEN conjunct2, THEN conjunct1, unfolded k]
  note c3 = t [THEN conjunct2, THEN conjunct2, THEN conjunct2, THEN conjunct2, THEN conjunct2,
      THEN conjunct1, unfolded k]
  note c4 = t [THEN conjunct2, THEN conjunct2, THEN conjunct2, THEN conjunct2, THEN conjunct2,
      THEN conjunct2, unfolded k]
  have h3': "map_of (proxyCache credPool) ''1.1.1.1:80:u1:p1'' = Some \<lparr>valid = True, timestamp = 0\<rparr>"
    using h3 unfolding k .
  have h5': "clock credPool - 0 < int (cacheExpiry credPool)"
    using h5 by simp
  show ?thesis by (intro conjI h1 h2 h3' h5' h6 c1 c2 c3 c4)
qed

section \<open>The cache pass\<close>

text \<open>
  C2. In the cache pass the selected keys go through \<open>testProxiesConcurrently\<close>, whose
  callback answers from the cache for every key with a fresh entry: the keys the pass
  selects are exactly such keys, so no probe is sent. Here the proxy the caller has
  just reported as bad is inserted again on the word of its cache entry, in a world
  where every probe fails: the trace shows a sub-batch with no probe in it.
\<close>

theorem cache_pass_inserts_without_probe:
  "availableProxies removedPool = []
   \<and> testProxy deadEnv 0 ''1.1.1.1:80:u1:p1'' = Inr False
   \<and> (\<exists>s. tryUsingCachedProxies deadEnv 20 removedPool = Some (None, s)
          \<and> map full (availableProxies s) = [''http://u1:p1@1.1.1.1:80'']
          \<and> trace s = [Dispatch [], Resolved [(''1.1.1.1:80:u1:p1'', True)]]
          \<and> calls s = 0)"
proof -
  let ?k = "''1.1.1.1:80:u1:p1''"
  let ?s1 = "removedPool\<lparr>trace := [Dispatch [], Resolved [(?k, True)]]\<rparr>"
  have a: "availableProxies removedPool = []"
    by (simp add: removedPool_eq freshPool_def newProxyPool_def)
  have b: "testProxy deadEnv 0 ?k = Inr False"
    by (simp add: testProxy_def testProxyTry_def deadEnv_def)
  have sc: "scanCache (clock removedPool) (cacheExpiry removedPool) 20 (proxyCache removedPool) [] = [?k]"
    by (simp add: removedPool_eq pool_eval)
  have cr: "cachedResult removedPool ?k = Some True"
    by (simp add: removedPool_eq pool_eval cachedResult_def)
  have rb: "runBatch deadEnv [?k] removedPool = ([(?k, True)], ?s1)"
    by (simp add: runBatch_def probed_def cr) (simp add: removedPool_eq pool_eval)
  have cfg: "concurrentRequests removedPool = 10" "targetCount removedPool = 20"
    "\<not> showProgressBar removedPool"
    by (simp_all add: removedPool_eq pool_eval)
  have "testBatches deadEnv 20 20 1 [?k] [] removedPool
        = testBatches deadEnv 20 20 1 (drop 20 [?k]) ([] @ [(?k, True)]) ?s1"
    by (rule testBatches_next [OF _ batchProgress_off [OF cfg(3)]]) (simp_all add: rb)
  then have tc: "testProxiesConcurrently deadEnv [?k] removedPool = Some (Inr [(?k, True)], ?s1)"
    by (simp add: testProxiesConcurrently_def cfg a)
  have ad: "map full (availableProxies (addValidProxies [(?k, True)] ?s1)) = [''http://u1:p1@1.1.1.1:80'']"
    "trace (addValidProxies [(?k, True)] ?s1) = [Dispatch [], Resolved [(?k, True)]]"
    "calls (addValidProxies [(?k, True)] ?s1) = 0"
    by (simp_all add: removedPool_eq pool_eval)
  have c: "tryUsingCachedProxies deadEnv 20 removedPool
           = Some (None, addValidProxies [(?k, True)] ?s1)"
    by (simp add: tryUsingCachedProxies_def sc tc)
  show ?thesis
    by (intro conjI exI [of _ "addValidProxies [(?k, True)] ?s1"] a b c ad)
qed

section \<open>Sub-batches and the cache\<close>











declare addValidProxies.simps [simp del]












section \<open>The refill cycle\<close>

lemma fetches_append [simp]: "fetches (xs @ ys) = fetches xs + fetches ys"
  by (simp add: fetches_def)

lemma fetches_simps [simp]:
  "fetches [] = 0"
  "fetches (Fetch c n p # es) = Suc (fetches es)"
  "fetches (Dispatch ps # es) = fetches es"
  "fetches (Resolved rs # es) = fetches es"
  "fetches (Wait ms # es) = fetches es"
  by (simp_all add: fetches_def)








section \<open>The cursor after a removal\<close>








end
